theory Spec2Isabelle
  imports Complex_Main
begin

section \<open>Sales Value Matrix: the scoring and classification core\<close>

text \<open>
  The development embeds the data-processing functions of
  \<^verbatim>\<open>src/sales_value_matrix_master.py\<close>: the detection of the yes/no columns at
  the end of \<^verbatim>\<open>process_uploaded_data\<close> (lines 45-55) and the whole of
  \<^verbatim>\<open>process_data\<close> (lines 60-114). File decoding, the Dash layout and the
  plotting callbacks are not modelled.
\<close>

subsection \<open>Strings\<close>

text \<open>
  A Python \<^verbatim>\<open>str\<close> is a \<^typ>\<open>string\<close>. Characters are taken as ASCII code
  points: \<^verbatim>\<open>str.lower\<close> maps \<^verbatim>\<open>A\<close>..\<^verbatim>\<open>Z\<close> to \<^verbatim>\<open>a\<close>..\<^verbatim>\<open>z\<close> and
  leaves every other character alone, and \<^verbatim>\<open>str.strip\<close> removes the ASCII
  characters for which \<^verbatim>\<open>str.isspace\<close> holds (code points 9-13 and 28-32) from
  both ends.
\<close>

definition lower_char :: "char \<Rightarrow> char" where
  "lower_char c =
     (case map_of (zip ''ABCDEFGHIJKLMNOPQRSTUVWXYZ'' ''abcdefghijklmnopqrstuvwxyz'') c of
        Some d \<Rightarrow> d
      | None \<Rightarrow> c)"

definition lower :: "string \<Rightarrow> string" where
  "lower s = map lower_char s"

definition isspace :: "char \<Rightarrow> bool" where
  "isspace c \<longleftrightarrow>
     c \<in> set [CHR 0x09, CHR 0x0A, CHR 0x0B, CHR 0x0C, CHR 0x0D,
              CHR 0x1C, CHR 0x1D, CHR 0x1E, CHR 0x1F, CHR '' '']"

definition strip :: "string \<Rightarrow> string" where
  "strip s = rev (dropWhile isspace (rev (dropWhile isspace s)))"

text \<open>Python's \<^verbatim>\<open>sub in s\<close> on strings: \<^verbatim>\<open>sub\<close> occurs in \<^verbatim>\<open>s\<close> as a contiguous run.\<close>

fun startswith :: "string \<Rightarrow> string \<Rightarrow> bool" where
  "startswith s [] = True"
| "startswith [] (c # sub) = False"
| "startswith (d # s) (c # sub) = (d = c \<and> startswith s sub)"

fun contains :: "string \<Rightarrow> string \<Rightarrow> bool" where
  "contains sub [] = (sub = [])"
| "contains sub (d # s) = (startswith (d # s) sub \<or> contains sub s)"

text \<open>Python's \<^verbatim>\<open>str\<close> of an integer: decimal digits, with a minus sign when negative.\<close>

fun digits :: "nat \<Rightarrow> string" where
  "digits n =
     (if n < 10 then [''0123456789'' ! n] else digits (n div 10) @ [''0123456789'' ! (n mod 10)])"

declare digits.simps [simp del]

definition str_int :: "int \<Rightarrow> string" where
  "str_int i = (if i < 0 then CHR ''-'' # digits (nat (- i)) else digits (nat i))"

subsection \<open>Data frames\<close>

text \<open>
  A cell of a pandas frame is missing (\<^verbatim>\<open>NaN\<close>), a string, or a whole number. The
  numbers \<^verbatim>\<open>process_data\<close> writes are all whole; \<open>Num\<close> holds the value, and
  \<open>astype_str\<close> renders it the way pandas renders an integer column. (A float64
  column would print with a trailing \<^verbatim>\<open>.0\<close>; no result below reads such a
  column back as text.)

  A frame is its ordered column index together with one total lookup function per row.
  Column names are therefore unique within a frame. Reading a column that is not in
  the index is the \<^verbatim>\<open>KeyError\<close> of pandas and is written out where the code reads.
\<close>

datatype cell = NaN | Str string | Num int

type_synonym row = "string \<Rightarrow> cell"

record dataframe =
  columns :: "string list"
  rows :: "row list"

datatype error = KeyError string

definition astype_str :: "cell \<Rightarrow> string" where
  "astype_str c = (case c of NaN \<Rightarrow> ''nan'' | Str s \<Rightarrow> s | Num n \<Rightarrow> str_int n)"

text \<open>
  \<^verbatim>\<open>df[col] = f(row)\<close>: an existing column is overwritten in place, a new one is
  appended to the index.
\<close>

definition set_column :: "string \<Rightarrow> (row \<Rightarrow> cell) \<Rightarrow> dataframe \<Rightarrow> dataframe" where
  "set_column col f df =
     \<lparr> columns = (if col \<in> set (columns df) then columns df else columns df @ [col]),
       rows = map (\<lambda>r. r(col := f r)) (rows df) \<rparr>"

text \<open>\<^verbatim>\<open>df[col]\<close> for a column of the index: the cells of the column, row by row.\<close>

definition column :: "string \<Rightarrow> dataframe \<Rightarrow> cell list" where
  "column col df = map (\<lambda>r. r col) (rows df)"

subsection \<open>Detection of the value columns (\<^verbatim>\<open>process_uploaded_data\<close>, lines 45-55)\<close>

definition bool_vocabulary :: "string list" where
  "bool_vocabulary = [''yes'', ''no'', ''y'', ''n'', ''1'', ''0'', ''true'', ''false'']"

text \<open>\<^verbatim>\<open>Series.unique\<close>: the distinct values in order of first appearance.\<close>

definition unique :: "'a list \<Rightarrow> 'a list" where
  "unique xs = rev (remdups (rev xs))"

text \<open>\<^verbatim>\<open>df[col].dropna().astype(str).str.strip().str.lower().unique()\<close>\<close>

definition unique_vals :: "dataframe \<Rightarrow> string \<Rightarrow> string list" where
  "unique_vals df col =
     unique (map (\<lambda>c. lower (strip (astype_str c))) (filter (\<lambda>c. c \<noteq> NaN) (column col df)))"

definition is_value_column :: "dataframe \<Rightarrow> string \<Rightarrow> bool" where
  "is_value_column df col = list_all (\<lambda>val. val \<in> set bool_vocabulary) (unique_vals df col)"

text \<open>
  The part of \<^verbatim>\<open>process_uploaded_data\<close> after the file has been parsed and the
  column names trimmed: the loop over \<^verbatim>\<open>df.columns\<close> collecting the value columns.
\<close>

definition process_uploaded_data :: "dataframe \<Rightarrow> dataframe \<times> string list" where
  "process_uploaded_data df = (df, filter (is_value_column df) (columns df))"

subsection \<open>Scoring and classification (\<^verbatim>\<open>process_data\<close>, lines 60-114)\<close>

text \<open>Lines 62-64: each value column is replaced by its normalised Yes/No text.\<close>

definition yes_no :: "cell \<Rightarrow> cell" where
  "yes_no c =
     (let x = lower (strip (astype_str c))
      in if x \<in> set [''yes'', ''y'', ''1'', ''true''] then Str ''Yes'' else Str ''No'')"

fun standardize :: "string list \<Rightarrow> dataframe \<Rightarrow> error + dataframe" where
  "standardize [] df = Inr df"
| "standardize (col # cols) df =
     (if col \<in> set (columns df)
      then standardize cols (set_column col (\<lambda>r. yes_no (r col)) df)
      else Inl (KeyError col))"

text \<open>
  Line 67: \<^verbatim>\<open>x.map({'Yes':1, 'No':0})\<close> sends any other cell to \<^verbatim>\<open>NaN\<close>, which
  \<^verbatim>\<open>sum(axis=1)\<close> skips.
\<close>

definition yes_no_map :: "cell \<Rightarrow> int option" where
  "yes_no_map c = (if c = Str ''Yes'' then Some 1 else if c = Str ''No'' then Some 0 else None)"

definition row_sum :: "string list \<Rightarrow> row \<Rightarrow> int" where
  "row_sum value_columns r =
     sum_list (map (\<lambda>col. case yes_no_map (r col) of Some n \<Rightarrow> n | None \<Rightarrow> 0) value_columns)"

text \<open>Lines 71-77.\<close>

definition engagement_map :: "(string \<times> int) list" where
  "engagement_map =
     [(''Untouched'', 0), (''Freemium'', 1), (''Da-direct'', 2),
      (''Orders 360 lite'', 3), (''Orders 360 full'', 4)]"

text \<open>Lines 80-84: the first column whose lowercased name contains one of the two words.\<close>

definition find_stage_col :: "string list \<Rightarrow> string option" where
  "find_stage_col cols =
     find (\<lambda>col. contains ''stage'' (lower col) \<or> contains ''subscription'' (lower col)) cols"

text \<open>Line 89: \<^verbatim>\<open>Series.map(dict)\<close> gives \<^verbatim>\<open>NaN\<close> for a key the dictionary lacks.\<close>

definition map_engagement :: "cell \<Rightarrow> cell" where
  "map_engagement c =
     (case c of Str s \<Rightarrow> (case map_of engagement_map s of Some n \<Rightarrow> Num n | None \<Rightarrow> NaN)
              | _ \<Rightarrow> NaN)"

definition fillna :: "int \<Rightarrow> cell \<Rightarrow> cell" where
  "fillna v c = (if c = NaN then Num v else c)"

text \<open>
  Lines 94-111. The threshold \<^verbatim>\<open>max_score * 0.65\<close> is taken as the exact real number.
  A score is a whole number, so it differs from a non-integral threshold by at least
  one twentieth, far more than the rounding error of the product; and a threshold that
  is integral (\<open>max_score\<close> a multiple of 20) is computed exactly in binary floating
  point, the double nearest to 0.65 being off by less than half a unit in the last
  place. So the comparisons of the code and of the model agree for every number of
  columns a frame can hold. A comparison with a \<^verbatim>\<open>NaN\<close> cell is false in pandas; the
  two columns compared have just been written with numbers.
\<close>

definition value_threshold :: "nat \<Rightarrow> real" where
  "value_threshold max_score = real max_score * 0.65"

definition engagement_threshold :: real where
  "engagement_threshold = 2.0"

definition cell_ge :: "cell \<Rightarrow> real \<Rightarrow> bool" where
  "cell_ge c t = (case c of Num n \<Rightarrow> t \<le> real_of_int n | _ \<Rightarrow> False)"

definition cell_lt :: "cell \<Rightarrow> real \<Rightarrow> bool" where
  "cell_lt c t = (case c of Num n \<Rightarrow> real_of_int n < t | _ \<Rightarrow> False)"

text \<open>\<^verbatim>\<open>np.select\<close>: the choice of the first condition that holds, else the default.\<close>

fun np_select :: "(bool \<times> 'a) list \<Rightarrow> 'a \<Rightarrow> 'a" where
  "np_select [] d = d"
| "np_select ((c, x) # cs) d = (if c then x else np_select cs d)"

definition conditions :: "cell \<Rightarrow> real \<Rightarrow> cell \<Rightarrow> bool list" where
  "conditions vs vt el =
     [cell_ge vs vt \<and> cell_ge el engagement_threshold,
      cell_lt vs vt \<and> cell_ge el engagement_threshold,
      cell_ge vs vt \<and> cell_lt el engagement_threshold,
      cell_lt vs vt \<and> cell_lt el engagement_threshold]"

definition quadrants :: "string list" where
  "quadrants =
     [''Strategic Partners'', ''Growth Opportunities'', ''High Value Prospects'', ''Basic Users'']"

definition quadrant :: "cell \<Rightarrow> real \<Rightarrow> cell \<Rightarrow> string" where
  "quadrant vs vt el = np_select (zip (conditions vs vt el) quadrants) ''Unclassified''"

text \<open>Line 112: \<^verbatim>\<open>df['Value Score'] * 8 + 20\<close>.\<close>

definition bubble_size :: "cell \<Rightarrow> cell" where
  "bubble_size c = (case c of Num n \<Rightarrow> Num (n * 8 + 20) | _ \<Rightarrow> NaN)"

text \<open>Lines 86-91.\<close>

definition add_engagement :: "dataframe \<Rightarrow> dataframe" where
  "add_engagement df =
     (case find_stage_col (columns df) of
        Some stage_col \<Rightarrow>
          set_column ''Engagement Level'' (\<lambda>r. fillna 0 (map_engagement (r stage_col)))
            (set_column stage_col (\<lambda>r. Str (lower (strip (astype_str (r stage_col))))) df)
      | None \<Rightarrow> set_column ''Engagement Level'' (\<lambda>r. Num 0) df)"

definition process_data :: "dataframe \<Rightarrow> string list \<Rightarrow> error + dataframe \<times> nat" where
  "process_data df value_columns =
     (case standardize value_columns df of
        Inl e \<Rightarrow> Inl e
      | Inr df1 \<Rightarrow>
          let df2 = set_column ''Value Score'' (\<lambda>r. Num (row_sum value_columns r)) df1;
              max_score = length value_columns;
              df3 = add_engagement df2;
              df4 = set_column ''Quadrant''
                      (\<lambda>r. Str (quadrant (r ''Value Score'') (value_threshold max_score)
                                          (r ''Engagement Level''))) df3;
              df5 = set_column ''Size'' (\<lambda>r. bubble_size (r ''Value Score'')) df4
          in Inr (df5, max_score))"

subsection \<open>Example frames\<close>

text \<open>
  The scenario of the specification (three agencies, two feature columns, a stage column),
  extended by a row with untrimmed, mixed-case values and a row with a missing value and
  an unknown stage; and the frame \<^verbatim>\<open>process_data\<close> returns for it.
\<close>

definition agencies :: dataframe where
  "agencies =
     \<lparr> columns = [''Agency'', ''FeatureA'', ''FeatureB'', ''Stage''],
       rows =
         [(\<lambda>_. NaN)(''Agency'' := Str ''Alpha'', ''FeatureA'' := Str ''Yes'',
                     ''FeatureB'' := Str ''Yes'', ''Stage'' := Str ''Orders 360 full''),
          (\<lambda>_. NaN)(''Agency'' := Str ''Beta'', ''FeatureA'' := Str ''No'',
                     ''FeatureB'' := Str ''No'', ''Stage'' := Str ''Untouched''),
          (\<lambda>_. NaN)(''Agency'' := Str ''Gamma'', ''FeatureA'' := Str ''Yes'',
                     ''FeatureB'' := Str ''No'', ''Stage'' := Str ''Freemium''),
          (\<lambda>_. NaN)(''Agency'' := Str ''Delta'', ''FeatureA'' := Str '' Y '',
                     ''FeatureB'' := Str ''TRUE'', ''Stage'' := Str ''DA-DIRECT''),
          (\<lambda>_. NaN)(''Agency'' := Str ''Eta'', ''FeatureA'' := NaN,
                     ''FeatureB'' := Str ''0'', ''Stage'' := Str ''unknown-stage'')] \<rparr>"

definition agencies_out :: dataframe where
  "agencies_out =
     \<lparr> columns = [''Agency'', ''FeatureA'', ''FeatureB'', ''Stage'',
                  ''Value Score'', ''Engagement Level'', ''Quadrant'', ''Size''],
       rows =
         [(\<lambda>_. NaN)(''Agency'' := Str ''Alpha'', ''FeatureA'' := Str ''Yes'',
                     ''FeatureB'' := Str ''Yes'', ''Stage'' := Str ''orders 360 full'',
                     ''Value Score'' := Num 2, ''Engagement Level'' := Num 0,
                     ''Quadrant'' := Str ''High Value Prospects'', ''Size'' := Num 36),
          (\<lambda>_. NaN)(''Agency'' := Str ''Beta'', ''FeatureA'' := Str ''No'',
                     ''FeatureB'' := Str ''No'', ''Stage'' := Str ''untouched'',
                     ''Value Score'' := Num 0, ''Engagement Level'' := Num 0,
                     ''Quadrant'' := Str ''Basic Users'', ''Size'' := Num 20),
          (\<lambda>_. NaN)(''Agency'' := Str ''Gamma'', ''FeatureA'' := Str ''Yes'',
                     ''FeatureB'' := Str ''No'', ''Stage'' := Str ''freemium'',
                     ''Value Score'' := Num 1, ''Engagement Level'' := Num 0,
                     ''Quadrant'' := Str ''Basic Users'', ''Size'' := Num 28),
          (\<lambda>_. NaN)(''Agency'' := Str ''Delta'', ''FeatureA'' := Str ''Yes'',
                     ''FeatureB'' := Str ''Yes'', ''Stage'' := Str ''da-direct'',
                     ''Value Score'' := Num 2, ''Engagement Level'' := Num 0,
                     ''Quadrant'' := Str ''High Value Prospects'', ''Size'' := Num 36),
          (\<lambda>_. NaN)(''Agency'' := Str ''Eta'', ''FeatureA'' := Str ''No'',
                     ''FeatureB'' := Str ''No'', ''Stage'' := Str ''unknown-stage'',
                     ''Value Score'' := Num 0, ''Engagement Level'' := Num 0,
                     ''Quadrant'' := Str ''Basic Users'', ''Size'' := Num 20)] \<rparr>"

text \<open>A frame without any yes/no column, and what \<^verbatim>\<open>process_data\<close> returns for it.\<close>

definition contacts :: dataframe where
  "contacts = \<lparr> columns = [''Agency''], rows = [(\<lambda>_. NaN)(''Agency'' := Str ''Alpha'')] \<rparr>"

definition contacts_out :: dataframe where
  "contacts_out =
     \<lparr> columns = [''Agency'', ''Value Score'', ''Engagement Level'', ''Quadrant'', ''Size''],
       rows = [(\<lambda>_. NaN)(''Agency'' := Str ''Alpha'', ''Value Score'' := Num 0,
                          ''Engagement Level'' := Num 0,
                          ''Quadrant'' := Str ''High Value Prospects'', ''Size'' := Num 20)] \<rparr>"




definition mixed_flags :: dataframe where
  "mixed_flags =
     \<lparr> columns = [''Flag''],
       rows = [(\<lambda>_. NaN)(''Flag'' := Str ''maybe''), (\<lambda>_. NaN)(''Flag'' := Str ''yes'')] \<rparr>"

text \<open>
  A frame whose yes/no column carries the name of a derived column, the frame
  \<^verbatim>\<open>process_data\<close> returns for it, and the frame a second call returns for that.
\<close>

definition scored :: dataframe where
  "scored =
     \<lparr> columns = [''Value Score'', ''B''],
       rows = [(\<lambda>_. NaN)(''Value Score'' := Str ''no'', ''B'' := Str ''yes'')] \<rparr>"

definition scored_out :: dataframe where
  "scored_out =
     \<lparr> columns = [''Value Score'', ''B'', ''Engagement Level'', ''Quadrant'', ''Size''],
       rows = [(\<lambda>_. NaN)(''Value Score'' := Num 1, ''B'' := Str ''Yes'',
                          ''Engagement Level'' := Num 0,
                          ''Quadrant'' := Str ''Basic Users'', ''Size'' := Num 28)] \<rparr>"

definition scored_again :: dataframe where
  "scored_again =
     \<lparr> columns = [''Value Score'', ''B'', ''Engagement Level'', ''Quadrant'', ''Size''],
       rows = [(\<lambda>_. NaN)(''Value Score'' := Num 2, ''B'' := Str ''Yes'',
                          ''Engagement Level'' := Num 0,
                          ''Quadrant'' := Str ''High Value Prospects'', ''Size'' := Num 36)] \<rparr>"

section \<open>Auxiliary facts\<close>

subsection \<open>Lowercasing and the Yes/No normalisation\<close>

lemma lower_char_not_upper: "lower_char c \<notin> set ''ABCDEFGHIJKLMNOPQRSTUVWXYZ''"
  by (simp add: lower_char_def)

lemma lower_char_if:
  "lower_char c =
    (if c = CHR ''A'' then CHR ''a'' else if c = CHR ''B'' then CHR ''b'' else
     if c = CHR ''C'' then CHR ''c'' else if c = CHR ''D'' then CHR ''d'' else
     if c = CHR ''E'' then CHR ''e'' else if c = CHR ''F'' then CHR ''f'' else
     if c = CHR ''G'' then CHR ''g'' else if c = CHR ''H'' then CHR ''h'' else
     if c = CHR ''I'' then CHR ''i'' else if c = CHR ''J'' then CHR ''j'' else
     if c = CHR ''K'' then CHR ''k'' else if c = CHR ''L'' then CHR ''l'' else
     if c = CHR ''M'' then CHR ''m'' else if c = CHR ''N'' then CHR ''n'' else
     if c = CHR ''O'' then CHR ''o'' else if c = CHR ''P'' then CHR ''p'' else
     if c = CHR ''Q'' then CHR ''q'' else if c = CHR ''R'' then CHR ''r'' else
     if c = CHR ''S'' then CHR ''s'' else if c = CHR ''T'' then CHR ''t'' else
     if c = CHR ''U'' then CHR ''u'' else if c = CHR ''V'' then CHR ''v'' else
     if c = CHR ''W'' then CHR ''w'' else if c = CHR ''X'' then CHR ''x'' else
     if c = CHR ''Y'' then CHR ''y'' else if c = CHR ''Z'' then CHR ''z'' else c)"
  by (simp add: lower_char_def)

lemma engagement_map_lower: "map_of engagement_map (lower s) = None"
proof (cases s)
  case Nil
  then show ?thesis by (simp add: lower_def engagement_map_def)
next
  case (Cons c cs)
  have "lower_char c \<noteq> CHR ''U''" "lower_char c \<noteq> CHR ''F''"
       "lower_char c \<noteq> CHR ''D''" "lower_char c \<noteq> CHR ''O''"
    using lower_char_not_upper [of c] by simp_all
  with Cons show ?thesis by (simp add: lower_def engagement_map_def)
qed

lemma yes_no_cases: "yes_no c = Str ''Yes'' \<or> yes_no c = Str ''No''"
  by (simp add: yes_no_def Let_def)

lemma yes_no_Yes: "yes_no (Str ''Yes'') = Str ''Yes''"
  by (simp add: yes_no_def astype_str_def strip_def isspace_def lower_def lower_char_def)

lemma yes_no_No: "yes_no (Str ''No'') = Str ''No''"
  by (simp add: yes_no_def astype_str_def strip_def isspace_def lower_def lower_char_def)

lemma yes_no_idem: "yes_no (yes_no c) = yes_no c"
  using yes_no_cases [of c] by (auto simp: yes_no_Yes yes_no_No)

lemma standardize_Inr:
  "set vc \<subseteq> set (columns df) \<Longrightarrow>
   standardize vc df =
     Inr \<lparr> columns = columns df,
           rows = map (\<lambda>r c. if c \<in> set vc then yes_no (r c) else r c) (rows df) \<rparr>"
proof (induction vc arbitrary: df)
  case Nil
  then show ?case by simp
next
  case (Cons col cols)
  let ?df = "set_column col (\<lambda>r. yes_no (r col)) df"
  have cols: "columns ?df = columns df"
    using Cons.prems by (simp add: set_column_def)
  have "set cols \<subseteq> set (columns ?df)"
    using Cons.prems cols by simp
  from Cons.IH [OF this] Cons.prems show ?case
    by (auto simp: cols set_column_def yes_no_idem fun_eq_iff)
qed

lemma standardize_Inl:
  "\<not> set vc \<subseteq> set (columns df) \<Longrightarrow> \<exists>col. col \<in> set vc \<and> col \<notin> set (columns df) \<and> standardize vc df = Inl (KeyError col)"
proof (induction vc arbitrary: df)
  case Nil
  then show ?case by simp
next
  case (Cons col cols)
  show ?case
  proof (cases "col \<in> set (columns df)")
    case True
    let ?df = "set_column col (\<lambda>r. yes_no (r col)) df"
    have cols: "columns ?df = columns df"
      using True by (simp add: set_column_def)
    with Cons.prems True have "\<not> set cols \<subseteq> set (columns ?df)" by simp
    from Cons.IH [OF this] True cols show ?thesis by auto
  next
    case False
    then show ?thesis by simp
  qed
qed

subsection \<open>The frame returned by \<^verbatim>\<open>process_data\<close>\<close>

lemma find_stage_col_Some:
  "find_stage_col cols = Some sc \<Longrightarrow>
   sc \<in> set cols \<and> sc \<noteq> ''Value Score'' \<and> sc \<noteq> ''Engagement Level'' \<and> sc \<noteq> ''Quadrant'' \<and> sc \<noteq> ''Size''"
  unfolding find_stage_col_def
  by (induction cols) (auto simp: lower_def lower_char_def split: if_splits)

lemma find_stage_col_append:
  "find_stage_col (xs @ ys) = (case find_stage_col xs of Some sc \<Rightarrow> Some sc | None \<Rightarrow> find_stage_col ys)"
  unfolding find_stage_col_def by (induction xs) auto

lemma find_stage_col_derived:
  "find_stage_col [''Value Score''] = None" "find_stage_col [''Engagement Level''] = None"
  "find_stage_col [''Quadrant''] = None" "find_stage_col [''Size''] = None"
  by (simp_all add: find_stage_col_def lower_def lower_char_def)

lemma rows_set_column: "rows (set_column c f d) = map (\<lambda>r. r(c := f r)) (rows d)"
  by (simp add: set_column_def)

lemma columns_set_column:
  "columns (set_column c f d) = (if c \<in> set (columns d) then columns d else columns d @ [c])"
  by (simp add: set_column_def)

lemma columns_add_engagement:
  "columns (add_engagement d) =
     (if ''Engagement Level'' \<in> set (columns d) then columns d else columns d @ [''Engagement Level''])"
  by (auto simp: add_engagement_def columns_set_column dest: find_stage_col_Some split: option.splits)

lemma add_engagement_rows:
  "rows (add_engagement d) =
     map (\<lambda>r. case find_stage_col (columns d) of
                 Some sc \<Rightarrow> r(sc := Str (lower (strip (astype_str (r sc)))), ''Engagement Level'' := Num 0)
               | None \<Rightarrow> r(''Engagement Level'' := Num 0)) (rows d)"
  by (simp add: add_engagement_def set_column_def map_engagement_def engagement_map_lower fillna_def
           split: option.splits)

lemma quadrant_Num:
  "quadrant (Num vs) vt (Num el) =
     (if vt \<le> real_of_int vs
      then (if 2 \<le> el then ''Strategic Partners'' else ''High Value Prospects'')
      else (if 2 \<le> el then ''Growth Opportunities'' else ''Basic Users''))"
  by (auto simp: quadrant_def conditions_def quadrants_def cell_ge_def cell_lt_def engagement_threshold_def)

lemma process_data_Inr:
  assumes "process_data df vc = Inr (df', ms)"
  shows "ms = length vc" and "set vc \<subseteq> set (columns df)"
    and "rows df' =
      map (\<lambda>r. let s = (\<lambda>c. if c \<in> set vc then yes_no (r c) else r c);
                   r2 = s(''Value Score'' := Num (row_sum vc s));
                   r3 = (case find_stage_col (columns df) of
                           Some sc \<Rightarrow> r2(sc := Str (lower (strip (astype_str (r2 sc)))),
                                         ''Engagement Level'' := Num 0)
                         | None \<Rightarrow> r2(''Engagement Level'' := Num 0))
               in r3(''Quadrant'' := Str (quadrant (r3 ''Value Score'') (value_threshold (length vc))
                                                  (r3 ''Engagement Level'')),
                     ''Size'' := bubble_size (r3 ''Value Score''))) (rows df)"
proof -
  show sub: "set vc \<subseteq> set (columns df)"
  proof (rule ccontr)
    assume "\<not> set vc \<subseteq> set (columns df)"
    from standardize_Inl [OF this] assms show False
      by (auto simp: process_data_def)
  qed
  define df1 where "df1 = \<lparr> columns = columns df,
      rows = map (\<lambda>r c. if c \<in> set vc then yes_no (r c) else r c) (rows df) \<rparr>"
  have std: "standardize vc df = Inr df1"
    unfolding df1_def by (rule standardize_Inr [OF sub])
  have c1: "columns df1 = columns df"
    and r1: "rows df1 = map (\<lambda>r c. if c \<in> set vc then yes_no (r c) else r c) (rows df)"
    by (simp_all add: df1_def)
  show "ms = length vc"
    using assms by (simp add: process_data_def std Let_def)
  have fs: "find_stage_col (columns (set_column ''Value Score'' f df1)) = find_stage_col (columns df)" for f
    by (simp add: columns_set_column c1 find_stage_col_append find_stage_col_derived split: option.splits)
  have "df' = set_column ''Size'' (\<lambda>r. bubble_size (r ''Value Score''))
          (set_column ''Quadrant'' (\<lambda>r. Str (quadrant (r ''Value Score'') (value_threshold (length vc)) (r ''Engagement Level'')))
            (add_engagement (set_column ''Value Score'' (\<lambda>r. Num (row_sum vc r)) df1)))"
    using assms by (auto simp: process_data_def std Let_def)
  then have "rows df' = rows (set_column ''Size'' (\<lambda>r. bubble_size (r ''Value Score''))
          (set_column ''Quadrant'' (\<lambda>r. Str (quadrant (r ''Value Score'') (value_threshold (length vc)) (r ''Engagement Level'')))
            (add_engagement (set_column ''Value Score'' (\<lambda>r. Num (row_sum vc r)) df1))))"
    by (rule arg_cong)
  then show "rows df' = map (\<lambda>r. let s = (\<lambda>c. if c \<in> set vc then yes_no (r c) else r c);
                   r2 = s(''Value Score'' := Num (row_sum vc s));
                   r3 = (case find_stage_col (columns df) of
                           Some sc \<Rightarrow> r2(sc := Str (lower (strip (astype_str (r2 sc)))),
                                         ''Engagement Level'' := Num 0)
                         | None \<Rightarrow> r2(''Engagement Level'' := Num 0))
               in r3(''Quadrant'' := Str (quadrant (r3 ''Value Score'') (value_threshold (length vc))
                                                  (r3 ''Engagement Level'')),
                     ''Size'' := bubble_size (r3 ''Value Score''))) (rows df)"
    by (simp add: rows_set_column add_engagement_rows fs r1 Let_def o_def)
qed

lemma process_data_columns:
  assumes "process_data df vc = Inr (df', ms)"
  shows "columns df' = columns df @
           filter (\<lambda>c. c \<notin> set (columns df)) [''Value Score'', ''Engagement Level'', ''Quadrant'', ''Size'']"
proof -
  have sub: "set vc \<subseteq> set (columns df)"
    using assms by (rule process_data_Inr)
  define df1 where "df1 = \<lparr> columns = columns df,
      rows = map (\<lambda>r c. if c \<in> set vc then yes_no (r c) else r c) (rows df) \<rparr>"
  have std: "standardize vc df = Inr df1"
    unfolding df1_def by (rule standardize_Inr [OF sub])
  have c1: "columns df1 = columns df"
    by (simp add: df1_def)
  have "df' = set_column ''Size'' (\<lambda>r. bubble_size (r ''Value Score''))
          (set_column ''Quadrant'' (\<lambda>r. Str (quadrant (r ''Value Score'') (value_threshold (length vc)) (r ''Engagement Level'')))
            (add_engagement (set_column ''Value Score'' (\<lambda>r. Num (row_sum vc r)) df1)))"
    using assms by (auto simp: process_data_def std Let_def)
  then have "columns df' = columns (set_column ''Size'' (\<lambda>r. bubble_size (r ''Value Score''))
          (set_column ''Quadrant'' (\<lambda>r. Str (quadrant (r ''Value Score'') (value_threshold (length vc)) (r ''Engagement Level'')))
            (add_engagement (set_column ''Value Score'' (\<lambda>r. Num (row_sum vc r)) df1))))"
    by (rule arg_cong)
  then show ?thesis
    by (simp add: columns_set_column columns_add_engagement c1)
qed

lemma process_data_total:
  assumes "set vc \<subseteq> set (columns df)"
  shows "\<exists>df'. process_data df vc = Inr (df', length vc)"
  by (simp add: process_data_def standardize_Inr [OF assms] Let_def)

lemma row_sum_count:
  "(\<forall>c\<in>set xs. s c = yes_no (r c)) \<Longrightarrow>
   row_sum xs s =
     int (length (filter (\<lambda>col. lower (strip (astype_str (r col))) \<in> set [''yes'', ''y'', ''1'', ''true'']) xs))"
  by (induction xs) (simp_all add: row_sum_def yes_no_map_def yes_no_def Let_def)

lemma row_sum_std:
  "row_sum vc (\<lambda>c. if c \<in> set vc then yes_no (r c) else r c) =
     int (length (filter (\<lambda>col. lower (strip (astype_str (r col))) \<in> set [''yes'', ''y'', ''1'', ''true'']) vc))"
  by (rule row_sum_count) simp

lemma process_data_nth:
  assumes "process_data df vc = Inr (df', ms)" and "i < length (rows df)"
  shows "(rows df' ! i) ''Value Score'' =
           Num (int (length (filter (\<lambda>col. lower (strip (astype_str ((rows df ! i) col))) \<in> set [''yes'', ''y'', ''1'', ''true'']) vc)))"
    and "(rows df' ! i) ''Engagement Level'' = Num 0"
    and "(rows df' ! i) ''Quadrant'' =
           Str (quadrant ((rows df' ! i) ''Value Score'') (value_threshold ms) (Num 0))"
    and "(rows df' ! i) ''Size'' = bubble_size ((rows df' ! i) ''Value Score'')"
proof -
  note out = process_data_Inr [OF assms(1)]
  have ne: "find_stage_col (columns df) \<noteq> Some ''Value Score''"
    "find_stage_col (columns df) \<noteq> Some ''Engagement Level''"
    "find_stage_col (columns df) \<noteq> Some ''Quadrant''"
    "find_stage_col (columns df) \<noteq> Some ''Size''"
    using find_stage_col_Some [of "columns df"] by blast+
  show vs: "(rows df' ! i) ''Value Score'' =
           Num (int (length (filter (\<lambda>col. lower (strip (astype_str ((rows df ! i) col))) \<in> set [''yes'', ''y'', ''1'', ''true'']) vc)))"
    using assms(2) ne by (auto simp: out(3) Let_def row_sum_std split: option.splits)
  show el: "(rows df' ! i) ''Engagement Level'' = Num 0"
    using assms(2) ne by (auto simp: out(3) Let_def split: option.splits)
  show "(rows df' ! i) ''Quadrant'' =
           Str (quadrant ((rows df' ! i) ''Value Score'') (value_threshold ms) (Num 0))"
    using assms(2) ne by (auto simp: out(3) out(1) Let_def split: option.splits)
  show "(rows df' ! i) ''Size'' = bubble_size ((rows df' ! i) ''Value Score'')"
    using assms(2) ne by (auto simp: out(3) Let_def split: option.splits)
qed

lemma process_data_length:
  assumes "process_data df vc = Inr (df', ms)"
  shows "length (rows df') = length (rows df)"
  by (simp add: process_data_Inr(3) [OF assms])

lemma process_data_row:
  assumes "process_data df vc = Inr (df', ms)" and "r' \<in> set (rows df')"
  shows "\<exists>vs. r' ''Value Score'' = Num vs \<and> 0 \<le> vs \<and> vs \<le> int ms \<and>
              r' ''Engagement Level'' = Num 0 \<and>
              r' ''Quadrant'' = Str (quadrant (Num vs) (value_threshold ms) (Num 0)) \<and>
              r' ''Size'' = Num (vs * 8 + 20)"
proof -
  from assms(2) obtain i where i: "i < length (rows df')" and r': "r' = rows df' ! i"
    by (auto simp: in_set_conv_nth)
  from i have i': "i < length (rows df)"
    by (simp add: process_data_length [OF assms(1)])
  note nth = process_data_nth [OF assms(1) i']
  have ms: "ms = length vc"
    using assms(1) by (rule process_data_Inr)
  show ?thesis
    unfolding r' nth(3,4) unfolding nth(1,2)
    by (simp add: bubble_size_def ms)
qed

lemma process_data_eqI:
  assumes "set vc \<subseteq> set (columns df)"
    and "columns out = columns df @
           filter (\<lambda>c. c \<notin> set (columns df)) [''Value Score'', ''Engagement Level'', ''Quadrant'', ''Size'']"
    and "rows out =
      map (\<lambda>r. let s = (\<lambda>c. if c \<in> set vc then yes_no (r c) else r c);
                   r2 = s(''Value Score'' := Num (row_sum vc s));
                   r3 = (case find_stage_col (columns df) of
                           Some sc \<Rightarrow> r2(sc := Str (lower (strip (astype_str (r2 sc)))),
                                         ''Engagement Level'' := Num 0)
                         | None \<Rightarrow> r2(''Engagement Level'' := Num 0))
               in r3(''Quadrant'' := Str (quadrant (r3 ''Value Score'') (value_threshold (length vc))
                                                  (r3 ''Engagement Level'')),
                     ''Size'' := bubble_size (r3 ''Value Score''))) (rows df)"
  shows "process_data df vc = Inr (out, length vc)"
proof -
  from process_data_total [OF assms(1)] obtain df' where eq: "process_data df vc = Inr (df', length vc)" ..
  have "columns df' = columns out"
    by (simp add: process_data_columns [OF eq] assms(2))
  moreover have "rows df' = rows out"
    by (simp only: process_data_Inr(3) [OF eq] assms(3))
  ultimately have "df' = out" by simp
  with eq show ?thesis by simp
qed

subsection \<open>Evaluation of the example frames\<close>

lemmas cell_defs =
  lower_def lower_char_if yes_no_def strip_def isspace_def astype_str_def row_sum_def yes_no_map_def
  quadrant_Num value_threshold_def bubble_size_def find_stage_col_def str_int_def digits.simps

lemma agencies_eval:
  "process_data agencies [''FeatureA'', ''FeatureB''] = Inr (agencies_out, 2)"
  using process_data_eqI [of "[''FeatureA'', ''FeatureB'']" agencies agencies_out]
  by (simp add: agencies_def agencies_out_def cell_defs Let_def fun_eq_iff)

lemma contacts_eval: "process_data contacts [] = Inr (contacts_out, 0)"
  using process_data_eqI [of "[]" contacts contacts_out]
  by (simp add: contacts_def contacts_out_def cell_defs Let_def fun_eq_iff)


lemma scored_eval: "process_data scored [''Value Score'', ''B''] = Inr (scored_out, 2)"
  using process_data_eqI [of "[''Value Score'', ''B'']" scored scored_out]
  by (simp add: scored_def scored_out_def cell_defs Let_def fun_eq_iff)

lemma scored_out_eval: "process_data scored_out [''Value Score'', ''B''] = Inr (scored_again, 2)"
  using process_data_eqI [of "[''Value Score'', ''B'']" scored_out scored_again]
  by (simp add: scored_out_def scored_again_def cell_defs Let_def fun_eq_iff)

lemmas upload_defs =
  process_uploaded_data_def is_value_column_def unique_vals_def unique_def column_def
  bool_vocabulary_def lower_def lower_char_if strip_def isspace_def astype_str_def

lemma agencies_upload: "process_uploaded_data agencies = (agencies, [''FeatureA'', ''FeatureB''])"
  by (simp add: agencies_def upload_defs)

lemma contacts_upload: "process_uploaded_data contacts = (contacts, [])"
  by (simp add: contacts_def upload_defs)



lemma mixed_flags_upload: "process_uploaded_data mixed_flags = (mixed_flags, [])"
  by (simp add: mixed_flags_def upload_defs)

lemma scored_upload: "process_uploaded_data scored = (scored, [''Value Score'', ''B''])"
  by (simp add: scored_def upload_defs)

subsection \<open>Cells that \<^verbatim>\<open>process_data\<close> keeps or rewrites\<close>

lemma process_data_frame:
  assumes "process_data df vc = Inr (df', ms)" and "i < length (rows df)"
    and "c \<notin> {''Value Score'', ''Engagement Level'', ''Quadrant'', ''Size''}"
    and "find_stage_col (columns df) \<noteq> Some c"
  shows "(rows df' ! i) c = (if c \<in> set vc then yes_no ((rows df ! i) c) else (rows df ! i) c)"
  using assms(2-4) by (auto simp: process_data_Inr(3) [OF assms(1)] Let_def split: option.splits)

lemma process_data_stage:
  assumes "process_data df vc = Inr (df', ms)" and "i < length (rows df)"
    and "find_stage_col (columns df) = Some sc"
  shows "(rows df' ! i) sc =
           Str (lower (strip (astype_str
             (if sc \<in> set vc then yes_no ((rows df ! i) sc) else (rows df ! i) sc))))"
  using assms(2) find_stage_col_Some [OF assms(3)]
  by (auto simp: process_data_Inr(3) [OF assms(1)] assms(3) Let_def)

lemma conditions_Num:
  "length (filter (\<lambda>b. b) (conditions (Num vs) vt (Num el))) = 1"
  by (auto simp: conditions_def cell_ge_def cell_lt_def)

subsection \<open>Normalising twice\<close>

lemma lower_char_other: "c \<notin> set ''ABCDEFGHIJKLMNOPQRSTUVWXYZ'' \<Longrightarrow> lower_char c = c"
  by (simp add: lower_char_if)

lemma isspace_lower_char: "isspace (lower_char c) = isspace c"
proof (cases "c \<in> set ''ABCDEFGHIJKLMNOPQRSTUVWXYZ''")
  case True
  then have "\<not> isspace c"
    by (auto simp: isspace_def)
  moreover have "\<not> isspace (lower_char c)"
    using True by (auto simp: isspace_def lower_char_if)
  ultimately show ?thesis by simp
next
  case False
  then show ?thesis by (simp add: lower_char_other)
qed

lemma lower_char_idem: "lower_char (lower_char c) = lower_char c"
  using lower_char_not_upper [of c] by (rule lower_char_other)

lemma lower_idem: "lower (lower s) = lower s"
  by (simp add: lower_def lower_char_idem)

lemma strip_lower: "strip (lower s) = lower (strip s)"
proof -
  have "isspace \<circ> lower_char = isspace"
    by (simp add: fun_eq_iff isspace_lower_char)
  then show ?thesis
    by (simp add: strip_def lower_def dropWhile_map rev_map)
qed

lemma dropWhile_id: "xs = [] \<or> \<not> P (hd xs) \<Longrightarrow> dropWhile P xs = xs"
  by (cases xs) auto

lemma strip_idem: "strip (strip s) = strip s"
proof -
  define t where "t = dropWhile isspace s"
  define u where "u = dropWhile isspace (rev t)"
  have t: "t = [] \<or> \<not> isspace (hd t)"
    unfolding t_def using hd_dropWhile [of isspace s] by blast
  have u: "u = [] \<or> \<not> isspace (hd u)"
    unfolding u_def using hd_dropWhile [of isspace "rev t"] by blast
  have ru: "rev u = [] \<or> \<not> isspace (hd (rev u))"
  proof (cases t)
    case Nil
    then show ?thesis by (simp add: u_def)
  next
    case (Cons a t')
    with t have a: "\<not> isspace a" by simp
    have "u = dropWhile isspace (rev t') @ [a]"
      unfolding u_def Cons using a by (simp add: dropWhile_append3)
    then show ?thesis using a by simp
  qed
  have "strip s = rev u"
    by (simp add: strip_def t_def u_def)
  moreover have "strip (rev u) = rev u"
    by (simp add: strip_def dropWhile_id [where P = isspace and xs = "rev u", OF ru]
        dropWhile_id [where P = isspace and xs = u, OF u])
  ultimately show ?thesis by simp
qed

lemma lower_strip_idem: "lower (strip (lower (strip s))) = lower (strip s)"
  by (simp add: strip_lower lower_idem strip_idem)

lemma yes_no_text: "yes_no (Str (lower (strip (astype_str (yes_no c))))) = yes_no c"
proof -
  have "yes_no (Str (lower (strip (astype_str (Str ''Yes''))))) = Str ''Yes''"
    "yes_no (Str (lower (strip (astype_str (Str ''No''))))) = Str ''No''"
    by (simp_all add: yes_no_def astype_str_def strip_def isspace_def lower_def lower_char_if)
  then show ?thesis
    using yes_no_cases [of c] by auto
qed

lemma yes_no_iff:
  "lower (strip (astype_str c)) \<in> set [''yes'', ''y'', ''1'', ''true''] \<longleftrightarrow> yes_no c = Str ''Yes''"
  by (simp add: yes_no_def Let_def)

lemma find_stage_col_filter_derived:
  "find_stage_col (filter P [''Value Score'', ''Engagement Level'', ''Quadrant'', ''Size'']) = None"
  by (simp add: find_stage_col_def lower_def lower_char_if)

section \<open>The claims\<close>

subsection \<open>Quadrant classification\<close>

text \<open>
  Claim C1. For a record of a dataset with \<open>max_score > 0\<close>, the classifier evaluates the
  four predicates over the Value Score, the threshold \<open>max_score * 0.65\<close>, the
  Engagement Level and the engagement threshold 2 in their listed order and returns the
  first match: score at or above the threshold with level at least 2 gives Strategic
  Partners; score below with level at least 2 gives Growth Opportunities; score at or
  above with level below 2 gives High Value Prospects; otherwise Basic Users. A score
  exactly equal to the threshold lands on the high side. The Quadrant cell of every
  record that \<^verbatim>\<open>process_data\<close> returns is this function of the record's Value Score
  and Engagement Level cells.
\<close>

theorem quadrant_first_match:
  assumes "0 < max_score"
  shows "(value_threshold max_score \<le> real_of_int vs \<and> 2 \<le> el \<longrightarrow>
            quadrant (Num vs) (value_threshold max_score) (Num el) = ''Strategic Partners'') \<and>
         (real_of_int vs < value_threshold max_score \<and> 2 \<le> el \<longrightarrow>
            quadrant (Num vs) (value_threshold max_score) (Num el) = ''Growth Opportunities'') \<and>
         (value_threshold max_score \<le> real_of_int vs \<and> el < 2 \<longrightarrow>
            quadrant (Num vs) (value_threshold max_score) (Num el) = ''High Value Prospects'') \<and>
         (real_of_int vs < value_threshold max_score \<and> el < 2 \<longrightarrow>
            quadrant (Num vs) (value_threshold max_score) (Num el) = ''Basic Users'') \<and>
         (real_of_int vs = value_threshold max_score \<longrightarrow>
            quadrant (Num vs) (value_threshold max_score) (Num el) \<in>
              {''Strategic Partners'', ''High Value Prospects''}) \<and>
         (process_data df value_columns = Inr (df', max_score) \<longrightarrow>
            (\<forall>r\<in>set (rows df'). \<exists>vs' el'.
               r ''Value Score'' = Num vs' \<and> r ''Engagement Level'' = Num el' \<and>
               r ''Quadrant'' = Str (quadrant (Num vs') (value_threshold max_score) (Num el'))))"
proof -
  have "\<exists>vs' el'. r ''Value Score'' = Num vs' \<and> r ''Engagement Level'' = Num el' \<and>
          r ''Quadrant'' = Str (quadrant (Num vs') (value_threshold max_score) (Num el'))"
    if "process_data df value_columns = Inr (df', max_score)" and "r \<in> set (rows df')" for r
    using process_data_row [OF that] by blast
  then show ?thesis
    by (simp add: quadrant_Num)
qed

theorem quadrant_first_match_witness:
  "0 < (20::nat) \<and> real_of_int 13 = value_threshold 20 \<and>
   quadrant (Num 13) (value_threshold 20) (Num 2) = ''Strategic Partners'' \<and>
   quadrant (Num 12) (value_threshold 20) (Num 3) = ''Growth Opportunities'' \<and>
   quadrant (Num 13) (value_threshold 20) (Num 1) = ''High Value Prospects'' \<and>
   quadrant (Num 12) (value_threshold 20) (Num 0) = ''Basic Users'' \<and>
   process_data agencies [''FeatureA'', ''FeatureB''] = Inr (agencies_out, 2) \<and>
   rows agencies_out ! 2 \<in> set (rows agencies_out) \<and>
   (rows agencies_out ! 2) ''Value Score'' = Num 1 \<and>
   (rows agencies_out ! 2) ''Engagement Level'' = Num 0 \<and>
   (rows agencies_out ! 2) ''Quadrant'' = Str (quadrant (Num 1) (value_threshold 2) (Num 0)) \<and>
   quadrant (Num 1) (value_threshold 2) (Num 0) = ''Basic Users''"
proof -
  have pos: "0 < (20::nat)" "0 < (2::nat)" by simp_all
  have th: "real_of_int 13 = value_threshold 20"
    by (simp add: value_threshold_def)
  have mem: "rows agencies_out ! 2 \<in> set (rows agencies_out)"
    by (simp add: agencies_out_def)
  have cells: "(rows agencies_out ! 2) ''Value Score'' = Num 1"
    "(rows agencies_out ! 2) ''Engagement Level'' = Num 0"
    by (simp_all add: agencies_out_def)
  have "(rows agencies_out ! 2) ''Quadrant'' = Str (quadrant (Num 1) (value_threshold 2) (Num 0))"
    using quadrant_first_match [OF pos(2), of _ _ agencies "[''FeatureA'', ''FeatureB'']" agencies_out]
      agencies_eval mem cells by fastforce
  moreover have "quadrant (Num 1) (value_threshold 2) (Num 0) = ''Basic Users''"
    using quadrant_first_match [OF pos(2), of 1 0] by (simp add: value_threshold_def)
  ultimately show ?thesis
    using quadrant_first_match [OF pos(1), of 13 2]
      quadrant_first_match [OF pos(1), of 12 3]
      quadrant_first_match [OF pos(1), of 13 1]
      quadrant_first_match [OF pos(1), of 12 0]
      agencies_eval th mem cells
    by (simp add: value_threshold_def)
qed

text \<open>
  Claim C6. The Quadrant of every record is one of the five fixed labels. Whenever
  \<open>max_score > 0\<close>, exactly one of the four conditions holds for the record, its Quadrant
  is one of the four primary labels, and the default \<^verbatim>\<open>Unclassified\<close> of
  \<^verbatim>\<open>np.select\<close> is not reached.
\<close>

theorem quadrant_labels_partition:
  assumes "process_data df value_columns = Inr (df', max_score)" and "r \<in> set (rows df')"
  shows "r ''Quadrant'' \<in> Str ` set (quadrants @ [''Unclassified'']) \<and>
         (0 < max_score \<longrightarrow>
            length (filter (\<lambda>b. b) (conditions (r ''Value Score'') (value_threshold max_score)
                                              (r ''Engagement Level''))) = 1 \<and>
            r ''Quadrant'' \<in> Str ` set quadrants \<and>
            r ''Quadrant'' \<noteq> Str ''Unclassified'')"
proof -
  from process_data_row [OF assms] obtain vs where
    vs: "r ''Value Score'' = Num vs" and el: "r ''Engagement Level'' = Num 0" and
    q: "r ''Quadrant'' = Str (quadrant (Num vs) (value_threshold max_score) (Num 0))"
    by blast
  have "length (filter (\<lambda>b. b) (conditions (r ''Value Score'') (value_threshold max_score)
                                              (r ''Engagement Level''))) = 1"
    unfolding vs el by (rule conditions_Num)
  moreover have "r ''Quadrant'' \<in> Str ` set quadrants"
    unfolding q by (simp add: quadrant_Num quadrants_def)
  moreover have "r ''Quadrant'' \<noteq> Str ''Unclassified''"
    unfolding q by (simp add: quadrant_Num)
  ultimately show ?thesis by auto
qed

theorem quadrant_labels_partition_witness:
  "process_data agencies [''FeatureA'', ''FeatureB''] = Inr (agencies_out, 2) \<and>
   rows agencies_out ! 0 \<in> set (rows agencies_out) \<and> 0 < (2::nat) \<and>
   (rows agencies_out ! 0) ''Quadrant'' = Str ''High Value Prospects'' \<and>
   conditions ((rows agencies_out ! 0) ''Value Score'') (value_threshold 2)
              ((rows agencies_out ! 0) ''Engagement Level'') = [False, False, True, False] \<and>
   length (filter (\<lambda>b. b) (conditions ((rows agencies_out ! 0) ''Value Score'') (value_threshold 2)
                                     ((rows agencies_out ! 0) ''Engagement Level''))) = 1 \<and>
   (rows agencies_out ! 0) ''Quadrant'' \<in> Str ` set quadrants \<and>
   (rows agencies_out ! 0) ''Quadrant'' \<noteq> Str ''Unclassified''"
proof -
  have mem: "rows agencies_out ! 0 \<in> set (rows agencies_out)"
    by (simp add: agencies_out_def)
  have q: "(rows agencies_out ! 0) ''Quadrant'' = Str ''High Value Prospects''"
    by (simp add: agencies_out_def)
  have c: "conditions ((rows agencies_out ! 0) ''Value Score'') (value_threshold 2)
              ((rows agencies_out ! 0) ''Engagement Level'') = [False, False, True, False]"
    by (simp add: agencies_out_def conditions_def cell_ge_def cell_lt_def value_threshold_def
        engagement_threshold_def)
  show ?thesis
    using quadrant_labels_partition [OF agencies_eval mem] agencies_eval mem q c by simp
qed

text \<open>
  Claim C3 says that a dataset with \<open>max_score = 0\<close> has every record Unclassified.
  \<^verbatim>\<open>process_data\<close> has no such guard: the threshold is then 0, every score is 0 and meets
  it, and the first or third condition matches. The frame \<open>contacts\<close> has no yes/no column
  and its record is classified High Value Prospects.
\<close>

theorem zero_max_score_counterexample:
  "process_uploaded_data contacts = (contacts, []) \<and>
   process_data contacts [] = Inr (contacts_out, 0) \<and>
   rows contacts_out ! 0 \<in> set (rows contacts_out) \<and>
   (rows contacts_out ! 0) ''Quadrant'' = Str ''High Value Prospects'' \<and>
   (rows contacts_out ! 0) ''Quadrant'' \<noteq> Str ''Unclassified''"
  by (simp add: contacts_upload contacts_eval) (simp add: contacts_out_def)

text \<open>
  Claim C3, amended. For every dataset in which \<open>max_score\<close> equals 0, every record has
  Value Score 0 and a Quadrant of the high-value side: Strategic Partners when its
  Engagement Level is at least 2, High Value Prospects otherwise; never Unclassified.
\<close>

theorem zero_max_score_high_side:
  assumes "process_data df value_columns = Inr (df', 0)" and "r \<in> set (rows df')"
  shows "r ''Value Score'' = Num 0 \<and>
         r ''Quadrant'' =
           Str (if cell_ge (r ''Engagement Level'') engagement_threshold
                then ''Strategic Partners'' else ''High Value Prospects'') \<and>
         r ''Quadrant'' \<noteq> Str ''Unclassified''"
proof -
  from process_data_row [OF assms] obtain vs where
    vs: "r ''Value Score'' = Num vs" "0 \<le> vs" "vs \<le> int 0" and
    el: "r ''Engagement Level'' = Num 0" and
    q: "r ''Quadrant'' = Str (quadrant (Num vs) (value_threshold 0) (Num 0))"
    by blast
  from vs have "vs = 0" by simp
  with vs el q show ?thesis
    by (simp add: quadrant_Num value_threshold_def cell_ge_def engagement_threshold_def)
qed

theorem zero_max_score_high_side_witness:
  "process_data contacts [] = Inr (contacts_out, 0) \<and>
   rows contacts_out ! 0 \<in> set (rows contacts_out) \<and>
   (rows contacts_out ! 0) ''Value Score'' = Num 0 \<and>
   \<not> cell_ge ((rows contacts_out ! 0) ''Engagement Level'') engagement_threshold \<and>
   (rows contacts_out ! 0) ''Quadrant'' = Str ''High Value Prospects''"
proof -
  have mem: "rows contacts_out ! 0 \<in> set (rows contacts_out)"
    by (simp add: contacts_out_def)
  have el: "\<not> cell_ge ((rows contacts_out ! 0) ''Engagement Level'') engagement_threshold"
    by (simp add: contacts_out_def cell_ge_def engagement_threshold_def)
  show ?thesis
    using zero_max_score_high_side [OF contacts_eval mem] contacts_eval mem el by simp
qed

subsection \<open>Value scores\<close>

text \<open>
  Claim C4. For every dataset and every record, the Value Score is the number of value
  columns whose trimmed, lowercased text is one of \<^verbatim>\<open>yes\<close>, \<^verbatim>\<open>y\<close>, \<^verbatim>\<open>1\<close>,
  \<^verbatim>\<open>true\<close>; every other text is normalised to \<^verbatim>\<open>No\<close> and counts 0. Hence the score
  lies between 0 and \<open>max_score\<close>, the number of value columns.
\<close>

theorem value_score_counts_yes:
  assumes "process_data df value_columns = Inr (df', max_score)" and "i < length (rows df)"
  shows "max_score = length value_columns \<and> length (rows df') = length (rows df) \<and>
         (rows df' ! i) ''Value Score'' =
           Num (int (length (filter
             (\<lambda>col. lower (strip (astype_str ((rows df ! i) col))) \<in> {''yes'', ''y'', ''1'', ''true''})
             value_columns))) \<and>
         (\<exists>n. (rows df' ! i) ''Value Score'' = Num n \<and> 0 \<le> n \<and> n \<le> int max_score) \<and>
         (\<forall>col\<in>set value_columns.
            col \<notin> {''Value Score'', ''Engagement Level'', ''Quadrant'', ''Size''} \<and>
            find_stage_col (columns df) \<noteq> Some col \<longrightarrow>
            (rows df' ! i) col =
              (if lower (strip (astype_str ((rows df ! i) col))) \<in> {''yes'', ''y'', ''1'', ''true''}
               then Str ''Yes'' else Str ''No''))"
proof -
  have ms: "max_score = length value_columns"
    using assms(1) by (rule process_data_Inr)
  have len: "length (rows df') = length (rows df)"
    using assms(1) by (rule process_data_length)
  have vs: "(rows df' ! i) ''Value Score'' =
           Num (int (length (filter
             (\<lambda>col. lower (strip (astype_str ((rows df ! i) col))) \<in> {''yes'', ''y'', ''1'', ''true''})
             value_columns)))"
    using process_data_nth(1) [OF assms] by simp
  have bound: "\<exists>n. (rows df' ! i) ''Value Score'' = Num n \<and> 0 \<le> n \<and> n \<le> int max_score"
    unfolding vs ms by simp
  have disp: "(rows df' ! i) col =
              (if lower (strip (astype_str ((rows df ! i) col))) \<in> {''yes'', ''y'', ''1'', ''true''}
               then Str ''Yes'' else Str ''No'')"
    if "col \<in> set value_columns"
      "col \<notin> {''Value Score'', ''Engagement Level'', ''Quadrant'', ''Size''}"
      "find_stage_col (columns df) \<noteq> Some col" for col
    using process_data_frame [OF assms that(2,3)] that(1) by (simp add: yes_no_def Let_def)
  from ms len vs bound disp show ?thesis by blast
qed

theorem value_score_counts_yes_witness:
  "process_data agencies (snd (process_uploaded_data agencies)) = Inr (agencies_out, 2) \<and>
   (3::nat) < length (rows agencies) \<and>
   snd (process_uploaded_data agencies) = [''FeatureA'', ''FeatureB''] \<and>
   (rows agencies ! 3) ''FeatureA'' = Str '' Y '' \<and> (rows agencies ! 3) ''FeatureB'' = Str ''TRUE'' \<and>
   (2::nat) = length (snd (process_uploaded_data agencies)) \<and>
   length (rows agencies_out) = length (rows agencies) \<and>
   (rows agencies_out ! 3) ''Value Score'' = Num 2 \<and>
   (rows agencies_out ! 3) ''FeatureA'' = Str ''Yes'' \<and>
   find_stage_col (columns agencies) = Some ''Stage''"
proof -
  have ev: "process_data agencies (snd (process_uploaded_data agencies)) = Inr (agencies_out, 2)"
    by (simp add: agencies_upload agencies_eval)
  have i: "(3::nat) < length (rows agencies)"
    by (simp add: agencies_def)
  have st: "find_stage_col (columns agencies) = Some ''Stage''"
    by (simp add: agencies_def find_stage_col_def lower_def lower_char_if)
  have cells: "(rows agencies ! 3) ''FeatureA'' = Str '' Y ''"
    "(rows agencies ! 3) ''FeatureB'' = Str ''TRUE''"
    by (simp_all add: agencies_def)
  have out: "(rows agencies_out ! 3) ''Value Score'' = Num 2"
    "(rows agencies_out ! 3) ''FeatureA'' = Str ''Yes''"
    by (simp_all add: agencies_out_def)
  show ?thesis
    using value_score_counts_yes [OF ev i] ev i st cells out
    by (simp add: agencies_upload)
qed

subsection \<open>Engagement levels\<close>

text \<open>
  Claim C10. For every input dataset, every record of the frame \<^verbatim>\<open>process_data\<close>
  returns has Engagement Level 0, also when a stage column is present and holds an exact
  entry of the table such as \<^verbatim>\<open>Orders 360 full\<close>: the stage text is lowercased before
  it is looked up in a dictionary whose keys all begin with a capital letter. Hence no
  record is assigned the Quadrant Strategic Partners or Growth Opportunities.
\<close>

theorem engagement_level_always_zero:
  assumes "process_data df value_columns = Inr (df', max_score)" and "r \<in> set (rows df')"
  shows "r ''Engagement Level'' = Num 0 \<and>
         r ''Quadrant'' \<noteq> Str ''Strategic Partners'' \<and>
         r ''Quadrant'' \<noteq> Str ''Growth Opportunities''"
proof -
  from process_data_row [OF assms] obtain vs where
    "r ''Engagement Level'' = Num 0"
    "r ''Quadrant'' = Str (quadrant (Num vs) (value_threshold max_score) (Num 0))"
    by blast
  then show ?thesis by (simp add: quadrant_Num)
qed

theorem engagement_level_always_zero_witness:
  "process_data agencies [''FeatureA'', ''FeatureB''] = Inr (agencies_out, 2) \<and>
   rows agencies_out ! 0 \<in> set (rows agencies_out) \<and>
   (rows agencies ! 0) ''Stage'' = Str ''Orders 360 full'' \<and>
   (rows agencies_out ! 0) ''Engagement Level'' = Num 0 \<and>
   (rows agencies_out ! 0) ''Quadrant'' \<noteq> Str ''Strategic Partners'' \<and>
   (rows agencies_out ! 0) ''Quadrant'' \<noteq> Str ''Growth Opportunities''"
proof -
  have mem: "rows agencies_out ! 0 \<in> set (rows agencies_out)"
    by (simp add: agencies_out_def)
  have "(rows agencies ! 0) ''Stage'' = Str ''Orders 360 full''"
    by (simp add: agencies_def)
  with engagement_level_always_zero [OF agencies_eval mem] agencies_eval mem
  show ?thesis by simp
qed

text \<open>
  Claim C2 (stage lookup). The specification maps the stage text \<^verbatim>\<open>DA-DIRECT\<close> to level 2,
  case-insensitively. On the fourth record of \<open>agencies\<close> the code lowercases the text to
  \<^verbatim>\<open>da-direct\<close>, the dictionary holds only the key \<^verbatim>\<open>Da-direct\<close>, the lookup misses and
  the Engagement Level is 0.
\<close>

theorem stage_lookup_misses:
  "(rows agencies ! 3) ''Stage'' = Str ''DA-DIRECT'' \<and>
   find_stage_col (columns agencies) = Some ''Stage'' \<and>
   process_data agencies [''FeatureA'', ''FeatureB''] = Inr (agencies_out, 2) \<and>
   (rows agencies_out ! 3) ''Stage'' = Str ''da-direct'' \<and>
   map_of engagement_map ''da-direct'' = None \<and>
   map_of engagement_map ''Da-direct'' = Some 2 \<and>
   (rows agencies_out ! 3) ''Engagement Level'' = Num 0"
proof -
  have "find_stage_col (columns agencies) = Some ''Stage''"
    by (simp add: agencies_def find_stage_col_def lower_def lower_char_if)
  moreover have "(rows agencies ! 3) ''Stage'' = Str ''DA-DIRECT''"
    by (simp add: agencies_def)
  moreover have "(rows agencies_out ! 3) ''Stage'' = Str ''da-direct''"
    "(rows agencies_out ! 3) ''Engagement Level'' = Num 0"
    by (simp_all add: agencies_out_def)
  moreover have "map_of engagement_map ''da-direct'' = None"
    "map_of engagement_map ''Da-direct'' = Some 2"
    by (simp_all add: engagement_map_def)
  ultimately show ?thesis
    using agencies_eval by simp
qed

subsection \<open>Running the classifier twice\<close>

text \<open>
  Claim C9 says that applying the classifier to a dataset it has already augmented gives the
  same output. The frame \<open>scored\<close> has a yes/no column named \<^verbatim>\<open>Value Score\<close>: the first
  call overwrites it with the score 1, the second call reads that 1 as a Yes and returns
  score 2 and another Quadrant.
\<close>

theorem process_data_twice_counterexample:
  "process_uploaded_data scored = (scored, [''Value Score'', ''B'']) \<and>
   process_data scored [''Value Score'', ''B''] = Inr (scored_out, 2) \<and>
   process_data scored_out [''Value Score'', ''B''] = Inr (scored_again, 2) \<and>
   (rows scored_out ! 0) ''Value Score'' = Num 1 \<and>
   (rows scored_again ! 0) ''Value Score'' = Num 2 \<and>
   (rows scored_out ! 0) ''Quadrant'' = Str ''Basic Users'' \<and>
   (rows scored_again ! 0) ''Quadrant'' = Str ''High Value Prospects''"
  by (simp add: scored_upload scored_eval scored_out_eval) (simp add: scored_out_def scored_again_def)

text \<open>
  Claim C9, amended. For every dataset none of whose value columns is named
  \<^verbatim>\<open>Value Score\<close>, \<^verbatim>\<open>Engagement Level\<close>, \<^verbatim>\<open>Quadrant\<close> or \<^verbatim>\<open>Size\<close>, applying
  \<^verbatim>\<open>process_data\<close> with the same value columns to the frame it returned returns that
  frame again, with the same \<open>max_score\<close>: the same Yes/No cells, Value Scores,
  Engagement Levels and Quadrants.
\<close>

theorem process_data_idempotent:
  assumes "process_data df value_columns = Inr (df', max_score)"
    and "set value_columns \<inter> {''Value Score'', ''Engagement Level'', ''Quadrant'', ''Size''} = {}"
  shows "process_data df' value_columns = Inr (df', max_score)"
proof -
  let ?vc = value_columns
  have ms: "max_score = length ?vc" and sub: "set ?vc \<subseteq> set (columns df)"
    using assms(1) by (rule process_data_Inr)+
  have cols: "columns df' = columns df @
      filter (\<lambda>c. c \<notin> set (columns df)) [''Value Score'', ''Engagement Level'', ''Quadrant'', ''Size'']"
    using assms(1) by (rule process_data_columns)
  have len: "length (rows df') = length (rows df)"
    using assms(1) by (rule process_data_length)
  have sub': "set ?vc \<subseteq> set (columns df')"
    using sub by (auto simp: cols)
  from process_data_total [OF sub'] obtain df'' where
    again: "process_data df' ?vc = Inr (df'', length ?vc)" ..
  have derived: "c \<notin> {''Value Score'', ''Engagement Level'', ''Quadrant'', ''Size''}"
    if "c \<in> set ?vc" for c
    using that assms(2) by blast
  have stage: "find_stage_col (columns df') = find_stage_col (columns df)"
    unfolding cols find_stage_col_append find_stage_col_filter_derived
    by (simp split: option.splits)
  have "columns df'' = columns df' @
      filter (\<lambda>c. c \<notin> set (columns df')) [''Value Score'', ''Engagement Level'', ''Quadrant'', ''Size'']"
    using again by (rule process_data_columns)
  also have "\<dots> = columns df'"
    by (auto simp: cols)
  finally have cols'': "columns df'' = columns df'" .
  have len'': "length (rows df'') = length (rows df')"
    using again by (rule process_data_length)
  have "rows df'' ! i = rows df' ! i" if i': "i < length (rows df')" for i
  proof -
    from i' len have i: "i < length (rows df)" by simp
    let ?r = "rows df ! i" and ?r' = "rows df' ! i" and ?r'' = "rows df'' ! i"
    have A: "yes_no (?r' c) = yes_no (?r c)" if c: "c \<in> set ?vc" for c
    proof (cases "find_stage_col (columns df) = Some c")
      case True
      show ?thesis
        using process_data_stage [OF assms(1) i True] c by (simp add: yes_no_text)
    next
      case False
      show ?thesis
        using process_data_frame [OF assms(1) i derived [OF c] False] c by (simp add: yes_no_idem)
    qed
    have vs: "?r'' ''Value Score'' = ?r' ''Value Score''"
    proof -
      have "filter (\<lambda>col. lower (strip (astype_str (?r' col))) \<in> set [''yes'', ''y'', ''1'', ''true'']) ?vc =
            filter (\<lambda>col. lower (strip (astype_str (?r col))) \<in> set [''yes'', ''y'', ''1'', ''true'']) ?vc"
        by (rule filter_cong [OF refl]) (simp only: yes_no_iff A)
      then show ?thesis
        by (simp only: process_data_nth(1) [OF again i'] process_data_nth(1) [OF assms(1) i])
    qed
    show ?thesis
    proof (rule ext)
      fix c
      consider (score) "c = ''Value Score''" | (level) "c = ''Engagement Level''"
        | (quad) "c = ''Quadrant''" | (size) "c = ''Size''"
        | (stage) "find_stage_col (columns df) = Some c"
        | (other) "c \<notin> {''Value Score'', ''Engagement Level'', ''Quadrant'', ''Size''}"
                  "find_stage_col (columns df) \<noteq> Some c"
        by blast
      then show "?r'' c = ?r' c"
      proof cases
        case score
        then show ?thesis by (simp add: vs)
      next
        case level
        then show ?thesis
          by (simp add: process_data_nth(2) [OF again i'] process_data_nth(2) [OF assms(1) i])
      next
        case quad
        then show ?thesis
          by (simp add: process_data_nth(3) [OF again i'] process_data_nth(3) [OF assms(1) i] vs ms)
      next
        case size
        then show ?thesis
          by (simp add: process_data_nth(4) [OF again i'] process_data_nth(4) [OF assms(1) i] vs)
      next
        case stage
        from stage have stage': "find_stage_col (columns df') = Some c"
          by (simp add: \<open>find_stage_col (columns df') = find_stage_col (columns df)\<close>)
        show ?thesis
        proof (cases "c \<in> set ?vc")
          case True
          then show ?thesis
            using process_data_stage [OF again i' stage'] process_data_stage [OF assms(1) i stage]
            by (simp add: yes_no_text)
        next
          case False
          then show ?thesis
            using process_data_stage [OF again i' stage'] process_data_stage [OF assms(1) i stage]
            by (simp add: astype_str_def lower_strip_idem)
        qed
      next
        case other
        from other(2) have other': "find_stage_col (columns df') \<noteq> Some c"
          by (simp add: \<open>find_stage_col (columns df') = find_stage_col (columns df)\<close>)
        show ?thesis
          using process_data_frame [OF again i' other(1) other']
            process_data_frame [OF assms(1) i other]
          by (simp add: yes_no_idem)
      qed
    qed
  qed
  with len'' have "rows df'' = rows df'"
    by (simp add: nth_equalityI)
  with cols'' have "df'' = df'" by simp
  with again ms show ?thesis by simp
qed

theorem process_data_idempotent_witness:
  "process_data agencies [''FeatureA'', ''FeatureB''] = Inr (agencies_out, 2) \<and>
   set [''FeatureA'', ''FeatureB''] \<inter> {''Value Score'', ''Engagement Level'', ''Quadrant'', ''Size''} = {} \<and>
   process_data agencies_out [''FeatureA'', ''FeatureB''] = Inr (agencies_out, 2)"
proof -
  have d: "set [''FeatureA'', ''FeatureB''] \<inter> {''Value Score'', ''Engagement Level'', ''Quadrant'', ''Size''} = {}"
    by simp
  show ?thesis
    using process_data_idempotent [OF agencies_eval d] agencies_eval d by simp
qed

subsection \<open>Detection of the value columns\<close>




subsection \<open>Errors\<close>




subsection \<open>What the classifier leaves unchanged\<close>




end
